theory Spec2Isabelle
  imports Complex_Main
begin

section \<open>Python strings\<close>

text \<open>
  The alert checker (\<^verbatim>\<open>backend/app/workers/monitor_alert_checker.py\<close>) works on
  Python \<^verbatim>\<open>str\<close> values. A string is modelled as a \<^typ>\<open>string\<close>, the list of the
  bytes of its UTF-8 encoding. Every character the checker tests for (\<^verbatim>\<open>$ { } :\<close>, the
  operators, the safe characters) is ASCII and is never part of a longer UTF-8 sequence,
  so searching, replacing and the per-character test agree with Python's, which work on
  code points. The one place where code points beyond ASCII matter is the regular
  expression class \<^verbatim>\<open>\s\<close>, which is written out below.
\<close>

text \<open>
  \<^verbatim>\<open>s.replace(old, new)\<close>: every non-overlapping occurrence of \<open>old\<close>, found from the
  left, is replaced. With an empty \<open>old\<close> Python puts \<open>new\<close> before every character and
  at the end.
\<close>

function str_replace :: "string \<Rightarrow> string \<Rightarrow> string \<Rightarrow> string" where
  "str_replace old new s =
     (if old = [] then new @ concat (map (\<lambda>c. c # new) s)
      else if s = [] then []
      else if take (length old) s = old
        then new @ str_replace old new (drop (length old) s)
      else hd s # str_replace old new (tl s))"
  by pat_completeness auto
termination
  by (relation "measure (\<lambda>(old, new, s). length s)") auto

declare str_replace.simps [simp del]

text \<open>
  The placeholder pattern \<^verbatim>\<open>\$\{monitor:([^}]+)\}\<close> tried at the head of a string: the
  literal \<^verbatim>\<open>${monitor:\<close>, then the longest run of characters other than \<^verbatim>\<open>}\<close> (at
  least one; a negated class also matches a newline), then \<^verbatim>\<open>}\<close>. The result is the
  captured identifier and the text after the match.
\<close>

definition match_placeholder :: "string \<Rightarrow> (string \<times> string) option" where
  "match_placeholder s =
     (if take 10 s = ''${monitor:'' then
        (let body = drop 10 s;
             ident = takeWhile (\<lambda>c. c \<noteq> CHR ''}'') body;
             rest = dropWhile (\<lambda>c. c \<noteq> CHR ''}'') body
         in if ident \<noteq> [] \<and> rest \<noteq> [] then Some (ident, tl rest) else None)
      else None)"

lemma match_placeholder_shorter:
  "match_placeholder s = Some (ident, rest) \<Longrightarrow> length rest < length s"
proof -
  assume m: "match_placeholder s = Some (ident, rest)"
  let ?body = "drop 10 s"
  let ?d = "dropWhile (\<lambda>c. c \<noteq> CHR ''}'') ?body"
  from m have r: "rest = tl ?d" and ne: "?d \<noteq> []"
    by (auto simp: match_placeholder_def Let_def split: if_splits)
  have "length ?d \<le> length ?body" by (rule length_dropWhile_le)
  moreover have "length (tl ?d) < length ?d" using ne by (cases ?d) auto
  ultimately show ?thesis using r by simp
qed

text \<open>\<^verbatim>\<open>re.findall(r'\$\{monitor:([^}]+)\}', s)\<close>: the captured identifiers of the
  non-overlapping matches, scanning from the left.\<close>

function findall :: "string \<Rightarrow> string list" where
  "findall s =
     (if s = [] then []
      else case match_placeholder s of
             Some (ident, rest) \<Rightarrow> ident # findall rest
           | None \<Rightarrow> findall (tl s))"
  by pat_completeness auto
termination
  by (relation "measure length") (auto simp: match_placeholder_shorter)

declare findall.simps [simp del]

text \<open>
  \<^verbatim>\<open>\s\<close> in a \<^verbatim>\<open>str\<close> pattern matches the Unicode whitespace code points: U+0009 to
  U+000D, U+001C to U+0020, U+0085, U+00A0, U+1680, U+2000 to U+200A, U+2028, U+2029,
  U+202F, U+205F and U+3000. \<open>space_len\<close> is the number of bytes of such a code point
  at the head of the string, or 0.
\<close>

definition space_len :: "string \<Rightarrow> nat" where
  "space_len s =
     (let b = map of_char s :: nat list in
      case b of
        [] \<Rightarrow> 0
      | b0 # _ \<Rightarrow>
          if (9 \<le> b0 \<and> b0 \<le> 13) \<or> (28 \<le> b0 \<and> b0 \<le> 32) then 1
          else if take 2 b = [0xC2, 0x85] \<or> take 2 b = [0xC2, 0xA0] then 2
          else if take 3 b = [0xE1, 0x9A, 0x80]
               \<or> (take 2 b = [0xE2, 0x80] \<and> length b \<ge> 3 \<and>
                   ((0x80 \<le> b ! 2 \<and> b ! 2 \<le> 0x8A) \<or> b ! 2 = 0xA8 \<or> b ! 2 = 0xA9
                     \<or> b ! 2 = 0xAF))
               \<or> take 3 b = [0xE2, 0x81, 0x9F]
               \<or> take 3 b = [0xE3, 0x80, 0x80] then 3
          else 0)"

lemma space_len_le: "space_len s \<le> length s"
proof (cases s)
  case Nil
  then show ?thesis by (simp add: space_len_def)
next
  case (Cons c cs)
  have two: "take 2 (map of_char s :: nat list) = [x, y] \<Longrightarrow> 2 \<le> length s" for x y
    by (cases s; cases "tl s") auto
  have three: "take 3 (map of_char s :: nat list) = [x, y, z] \<Longrightarrow> 3 \<le> length s" for x y z
    by (cases s; cases "tl s"; cases "tl (tl s)") auto
  show ?thesis
    using Cons two three
    by (auto simp: space_len_def Let_def split: if_splits)
qed

text \<open>\<^verbatim>\<open>\s*\<close>: the longest run of whitespace is consumed.\<close>

function strip_space :: "string \<Rightarrow> string" where
  "strip_space s = (if space_len s = 0 then s else strip_space (drop (space_len s) s))"
  by pat_completeness auto
termination
proof (relation "measure length")
  show "wf (measure length)" by simp
next
  fix s :: string
  assume "space_len s \<noteq> 0"
  moreover have "space_len s \<le> length s" by (rule space_len_le)
  ultimately show "(drop (space_len s) s, s) \<in> measure length" by simp
qed

declare strip_space.simps [simp del]

lemma strip_space_le: "length (strip_space s) \<le> length s"
  by (induction s rule: strip_space.induct) (subst strip_space.simps, auto)

lemma length_tl_less: "s \<noteq> [] \<Longrightarrow> length (tl s) < length s"
  by (cases s) auto

text \<open>\<^verbatim>\<open>re.sub(r'\$\{monitor:[^}]+\}\s*', '', s)\<close>: every placeholder is deleted
  together with the whitespace that follows it.\<close>

function sub_placeholders :: "string \<Rightarrow> string" where
  "sub_placeholders s =
     (if s = [] then []
      else case match_placeholder s of
             Some (ident, rest) \<Rightarrow> sub_placeholders (strip_space rest)
           | None \<Rightarrow> hd s # sub_placeholders (tl s))"
  by pat_completeness auto
termination
  by (relation "measure length")
     (auto simp: le_less_trans [OF strip_space_le match_placeholder_shorter]
           intro: length_tl_less)

declare sub_placeholders.simps [simp del]

text \<open>\<^verbatim>\<open>sep.join(parts)\<close>.\<close>

fun join :: "string \<Rightarrow> string list \<Rightarrow> string" where
  "join sep [] = []"
| "join sep [p] = p"
| "join sep (p # q # ps) = p @ sep @ join sep (q # ps)"

section \<open>Data model\<close>

text \<open>
  A \<^verbatim>\<open>datetime\<close> is a count of microseconds, and so is the difference of two.
  \<^verbatim>\<open>timedelta.total_seconds()\<close> returns a float; it is modelled by the exact quotient,
  which compares with an integer cooldown as the float does as long as the difference
  is below \<open>2^53\<close> microseconds (some 285 years).
\<close>

type_synonym datetime = int

definition total_seconds :: "int \<Rightarrow> real" where
  "total_seconds d = real_of_int d / 1000000"

datatype py_exception = ValueError string | Exception string

text \<open>
  The rows the checker reads. The metric value is a float (type \<open>'v\<close>, kept abstract);
  \<open>'id\<close> is the type of rule identifiers and \<open>'l\<close> the type of severity levels.
  \<open>mv_value\<close> is the column \<^verbatim>\<open>MonitorValue.value\<close>, \<open>rule_id\<close> and \<open>rule_name\<close> are
  \<^verbatim>\<open>AlertRule.id\<close> and \<^verbatim>\<open>AlertRule.name\<close>, \<open>monitor_name\<close> is \<^verbatim>\<open>Monitor.name\<close>.
\<close>

record monitor =
  monitor_name :: string
  unit :: "string option"
  decimal_places :: int

record 'v monitor_value =
  mv_value :: "'v option"

record ('id, 'l) alert_rule =
  rule_id :: 'id
  rule_name :: string
  condition :: string
  enabled :: bool
  cooldown_seconds :: int
  level :: 'l

text \<open>
  The database session, as the three queries of the checker see it:
  \<open>monitors\<close> is \<^verbatim>\<open>db.query(Monitor).filter(Monitor.id == monitor_id).first()\<close>,
  \<open>latest_values\<close> is the \<^verbatim>\<open>MonitorValue\<close> row of a monitor with the greatest
  \<^verbatim>\<open>computed_at\<close>, and \<open>alert_rules\<close> is the table of rules.
\<close>

record ('id, 'v, 'l) database =
  monitors :: "string \<rightharpoonup> monitor"
  latest_values :: "string \<rightharpoonup> 'v monitor_value"
  alert_rules :: "('id, 'l) alert_rule list"

text \<open>An entry of \<^verbatim>\<open>self.alert_states\<close>:
  \<^verbatim>\<open>{'last_notified': timestamp, 'is_active': bool}\<close>.\<close>

record alert_state =
  last_notified :: "datetime option"
  is_active :: bool

text \<open>
  What the checker calls and does not define: the clock (\<open>utcnow k\<close> is what the
  \<open>k\<close>-th reading of \<^verbatim>\<open>datetime.utcnow()\<close> returns), \<^verbatim>\<open>str\<close> of a float, the
  fixed-point formatting \<^verbatim>\<open>f"{v:.{n}f}"\<close> of a float, \<^verbatim>\<open>bool(eval(...))\<close> and the
  Pushover service.
\<close>

record ('v, 'l) environment =
  utcnow :: "nat \<Rightarrow> datetime"
  py_str :: "'v \<Rightarrow> string"
  format_float :: "'v \<Rightarrow> nat \<Rightarrow> string"
  py_eval :: "string \<Rightarrow> py_exception + bool"
  send_alert :: "string \<Rightarrow> string \<Rightarrow> 'l \<Rightarrow> string \<Rightarrow> py_exception + bool"
  is_configured :: bool

text \<open>
  The checker's state: \<^verbatim>\<open>self.alert_states\<close>, and the history of its calls to the
  outside, which the source does not store and the properties below speak about: the
  number of clock readings, the strings passed to \<^verbatim>\<open>eval\<close>, and the arguments of
  each \<^verbatim>\<open>send_alert\<close> call (message, title, level, url).
\<close>

record ('id, 'l) checker =
  alert_states :: "'id \<rightharpoonup> alert_state"
  clock_reads :: nat
  eval_calls :: "string list"
  send_calls :: "(string \<times> string \<times> 'l \<times> string) list"

section \<open>The condition evaluator\<close>

text \<open>
  The loop of \<^verbatim>\<open>_evaluate_condition\<close> over \<^verbatim>\<open>monitor_refs\<close>: each reference is
  resolved and replaced in \<^verbatim>\<open>evaluated_condition\<close>; \<open>None\<close> is the \<^verbatim>\<open>return False\<close>
  of a missing monitor, a missing sample or a null value.
\<close>

fun replace_refs ::
  "('v, 'l) environment \<Rightarrow> ('id, 'v, 'l) database \<Rightarrow> string list \<Rightarrow> string \<Rightarrow> string option"
where
  "replace_refs env db [] evaluated_condition = Some evaluated_condition"
| "replace_refs env db (monitor_id # refs) evaluated_condition =
     (case monitors db monitor_id of
        None \<Rightarrow> None
      | Some monitor \<Rightarrow>
          (case latest_values db monitor_id of
             None \<Rightarrow> None
           | Some latest_value \<Rightarrow>
               (case mv_value latest_value of
                  None \<Rightarrow> None
                | Some v \<Rightarrow>
                    replace_refs env db refs
                      (str_replace (''${monitor:'' @ monitor_id @ ''}'') (py_str env v)
                         evaluated_condition))))"

definition safe_chars :: "char list" where
  "safe_chars = ''0123456789.><=|& -or''"

text \<open>\<^verbatim>\<open>check_str\<close>: the condition with the operators removed. The source computes it
  and then tests \<^verbatim>\<open>evaluated_condition\<close>.\<close>

definition check_str :: "string \<Rightarrow> string" where
  "check_str evaluated_condition =
     foldl (\<lambda>cs op. str_replace op [] cs) evaluated_condition
       [''||'', ''&&'', ''>='', ''<='', ''=='', ''!='', ''>'', ''<'', '' or '', '' and '']"

definition evaluate_condition ::
  "('v, 'l) environment \<Rightarrow> ('id, 'v, 'l) database \<Rightarrow> ('id, 'l) alert_rule \<Rightarrow>
   ('id, 'l) checker \<Rightarrow> (py_exception + bool) \<times> ('id, 'l) checker"
where
  "evaluate_condition env db rule s =
     (let monitor_refs = findall (condition rule) in
      if monitor_refs = [] then (Inr False, s)
      else
        case replace_refs env db monitor_refs (condition rule) of
          None \<Rightarrow> (Inr False, s)
        | Some evaluated_condition \<Rightarrow>
            (let unused = check_str evaluated_condition in
             if \<not> list_all (\<lambda>c. c \<in> set safe_chars) evaluated_condition
             then (Inr False, s)
             else
               (let e1 = str_replace '' || '' '' or ''
                           (str_replace '' or '' '' or '' evaluated_condition);
                    e2 = str_replace '' && '' '' and ''
                           (str_replace '' and '' '' and '' e1);
                    s' = s\<lparr>eval_calls := eval_calls s @ [e2]\<rparr>
                in case py_eval env e2 of
                     Inl e \<Rightarrow> (Inr False, s')
                   | Inr result \<Rightarrow> (Inr result, s'))))"

section \<open>The message formatter\<close>

definition parse_condition_to_boundary :: "string \<Rightarrow> string" where
  "parse_condition_to_boundary cond =
     (let simplified = sub_placeholders cond;
          simplified = str_replace '' or '' '' OR '' simplified;
          simplified = str_replace '' and '' '' AND '' simplified;
          simplified = str_replace ''||'' '' OR '' simplified;
          simplified = str_replace ''&&'' '' AND '' simplified
      in simplified)"

text \<open>The two labels of the message body, U+5F53 U+524D and U+8FB9 U+754C, each followed
  by a colon and a space.\<close>

definition label_current :: string where
  "label_current = map char_of [0xE5, 0xBD, 0x93, 0xE5, 0x89, 0x8D :: nat] @ '': ''"

definition label_boundary :: string where
  "label_boundary = map char_of [0xE8, 0xBE, 0xB9, 0xE7, 0x95, 0x8C :: nat] @ '': ''"

text \<open>
  \<^verbatim>\<open>_format_alert_message\<close>. The format specification \<^verbatim>\<open>.{decimal_places}f\<close> raises
  \<^verbatim>\<open>ValueError\<close> for a negative precision and for one above \<open>2^31 - 1\<close>.
\<close>

definition format_alert_message ::
  "('v, 'l) environment \<Rightarrow> ('id, 'v, 'l) database \<Rightarrow> ('id, 'l) alert_rule \<Rightarrow>
   py_exception + string \<times> string"
where
  "format_alert_message env db rule =
     (let monitor_refs = findall (condition rule) in
      if monitor_refs = [] then Inr (''Alert'', ''Condition: '' @ condition rule)
      else
        (let monitor_id = hd monitor_refs in
         case monitors db monitor_id of
           None \<Rightarrow> Inr (''Alert'', ''Condition: '' @ condition rule)
         | Some monitor \<Rightarrow>
             (case latest_values db monitor_id of
                None \<Rightarrow> Inr (monitor_name monitor, ''No value available'')
              | Some latest_value \<Rightarrow>
                  (case mv_value latest_value of
                     None \<Rightarrow> Inr (monitor_name monitor, ''No value available'')
                   | Some v \<Rightarrow>
                       if decimal_places monitor < 0
                       then Inl (ValueError ''Format specifier missing precision'')
                       else if decimal_places monitor > 2147483647
                       then Inl (ValueError ''precision too big'')
                       else
                         (let value_str = format_float env v (nat (decimal_places monitor));
                              value_str = (case unit monitor of
                                             None \<Rightarrow> value_str
                                           | Some u \<Rightarrow> value_str @ u);
                              boundary = parse_condition_to_boundary (condition rule);
                              message_parts =
                                [label_current @ value_str, label_boundary @ boundary]
                          in Inr (monitor_name monitor, join [CHR 0x0A] message_parts))))))"

section \<open>The alert state machine\<close>

definition url :: string where
  "url = ''https://distill.baa.one/monitors''"

text \<open>
  \<^verbatim>\<open>_handle_triggered_alert\<close>. A \<^verbatim>\<open>datetime\<close> is always true in a test, so
  \<^verbatim>\<open>if last_notified:\<close> asks whether the entry has a timestamp. The message is built
  outside the \<^verbatim>\<open>try\<close>, so an exception of the formatter leaves the function; one of
  \<^verbatim>\<open>send_alert\<close> is caught.
\<close>

definition handle_triggered_alert ::
  "('v, 'l) environment \<Rightarrow> ('id, 'v, 'l) database \<Rightarrow> ('id, 'l) alert_rule \<Rightarrow>
   ('id, 'l) checker \<Rightarrow> (py_exception + unit) \<times> ('id, 'l) checker"
where
  "handle_triggered_alert env db rule s =
     (let now = utcnow env (clock_reads s);
          s1 = s\<lparr>clock_reads := Suc (clock_reads s)\<rparr>;
          last = (case alert_states s (rule_id rule) of
                    None \<Rightarrow> None
                  | Some rule_state \<Rightarrow> last_notified rule_state)
      in
        if (case last of
              None \<Rightarrow> False
            | Some t \<Rightarrow> total_seconds (now - t) < real_of_int (cooldown_seconds rule))
        then (Inr (), s1)
        else
          case format_alert_message env db rule of
            Inl e \<Rightarrow> (Inl e, s1)
          | Inr (title, message) \<Rightarrow>
              (let s2 = s1\<lparr>send_calls :=
                             send_calls s1 @ [(message, title, level rule, url)]\<rparr>
               in case send_alert env message title (level rule) url of
                    Inl e \<Rightarrow> (Inr (), s2)
                  | Inr sent \<Rightarrow>
                      if sent
                      then (Inr (),
                            s2\<lparr>alert_states := (alert_states s2)(rule_id rule \<mapsto>
                                  \<lparr>last_notified = Some now, is_active = True\<rparr>)\<rparr>)
                      else (Inr (), s2)))"

section \<open>The checker loop\<close>

text \<open>The body of the \<^verbatim>\<open>try\<close> inside the loop of \<^verbatim>\<open>run\<close>, for one rule.\<close>

definition check_rule ::
  "('v, 'l) environment \<Rightarrow> ('id, 'v, 'l) database \<Rightarrow> ('id, 'l) alert_rule \<Rightarrow>
   ('id, 'l) checker \<Rightarrow> (py_exception + unit) \<times> ('id, 'l) checker"
where
  "check_rule env db rule s =
     (case evaluate_condition env db rule s of
        (Inl e, s1) \<Rightarrow> (Inl e, s1)
      | (Inr is_triggered, s1) \<Rightarrow>
          if is_triggered then handle_triggered_alert env db rule s1
          else
            (case alert_states s1 (rule_id rule) of
               None \<Rightarrow> (Inr (), s1)
             | Some rule_state \<Rightarrow>
                 if is_active rule_state
                 then (Inr (),
                       s1\<lparr>alert_states := (alert_states s1)(rule_id rule \<mapsto>
                             rule_state\<lparr>is_active := False\<rparr>)\<rparr>)
                 else (Inr (), s1)))"

text \<open>The loop: \<^verbatim>\<open>except Exception\<close> logs and continues with the next rule.\<close>

fun run_loop ::
  "('v, 'l) environment \<Rightarrow> ('id, 'v, 'l) database \<Rightarrow> ('id, 'l) alert_rule list \<Rightarrow>
   ('id, 'l) checker \<Rightarrow> ('id, 'l) checker"
where
  "run_loop env db [] s = s"
| "run_loop env db (rule # rules) s =
     (case check_rule env db rule s of
        (Inl e, s') \<Rightarrow> run_loop env db rules s'
      | (Inr u, s') \<Rightarrow> run_loop env db rules s')"

definition run ::
  "('v, 'l) environment \<Rightarrow> ('id, 'v, 'l) database \<Rightarrow> ('id, 'l) checker \<Rightarrow>
   (py_exception + unit) \<times> ('id, 'l) checker"
where
  "run env db s =
     (let rules = filter enabled (alert_rules db) in
      if \<not> is_configured env then (Inr (), s)
      else (Inr (), run_loop env db rules s))"

text \<open>\<^verbatim>\<open>__init__\<close>: no alert state, and nothing called yet.\<close>

definition init :: "('id, 'l) checker" where
  "init = \<lparr>alert_states = Map.empty, clock_reads = 0, eval_calls = [], send_calls = []\<rparr>"

section \<open>Fixtures\<close>

text \<open>
  A rule, an environment and a database for the examples. The floats of the examples
  are 62.0 (the number 62) and 40.0 (any other number); \<^verbatim>\<open>eval\<close> knows the two
  expressions that the rule's condition becomes, and fails on any other; the clock
  stands at 0 and Pushover accepts every message. The examples change single fields.
\<close>

definition ex_condition :: string where
  "ex_condition = ''${monitor:m1} > 50 or ${monitor:m1} < 30''"

definition ex_rule :: "(nat, string) alert_rule" where
  "ex_rule = \<lparr>rule_id = 1, rule_name = ''drift'', condition = ex_condition, enabled = True,
              cooldown_seconds = 60, level = ''high''\<rparr>"

definition ex_env :: "(nat, string) environment" where
  "ex_env =
     \<lparr>utcnow = (\<lambda>k. 0),
      py_str = (\<lambda>v. if v = 62 then ''62.0'' else ''40.0''),
      format_float = (\<lambda>v n. (if v = 62 then ''62.'' else ''40.'') @ replicate n (CHR ''0'')),
      py_eval = (\<lambda>e. if e = ''62.0 > 50 or 62.0 < 30'' then Inr True
                     else if e = ''40.0 > 50 or 40.0 < 30'' then Inr False
                     else Inl (Exception ''SyntaxError'')),
      send_alert = (\<lambda>message title lvl u. Inr True),
      is_configured = True\<rparr>"

definition ex_db :: "nat \<Rightarrow> int \<Rightarrow> (nat, nat, string) database" where
  "ex_db v places =
     \<lparr>monitors = [''m1'' \<mapsto> \<lparr>monitor_name = ''DRIFT'', unit = Some ''%'',
                                decimal_places = places\<rparr>],
      latest_values = [''m1'' \<mapsto> \<lparr>mv_value = Some v\<rparr>],
      alert_rules = [ex_rule]\<rparr>"

text \<open>The checker after a notification of the example rule at time 0, with the given
  \<^verbatim>\<open>is_active\<close> flag.\<close>

definition ex_notified :: "bool \<Rightarrow> (nat, string) checker" where
  "ex_notified active =
     init\<lparr>alert_states := [1 \<mapsto> \<lparr>last_notified = Some 0, is_active = active\<rparr>]\<rparr>"

section \<open>Properties of the condition evaluator\<close>

lemma evaluate_condition_returns: "\<exists>b. fst (evaluate_condition env db rule s) = Inr b"
  by (auto simp: evaluate_condition_def Let_def split: option.split sum.split)

lemma evaluate_condition_frame:
  "alert_states (snd (evaluate_condition env db rule s)) = alert_states s"
  "send_calls (snd (evaluate_condition env db rule s)) = send_calls s"
  "clock_reads (snd (evaluate_condition env db rule s)) = clock_reads s"
  by (simp_all add: evaluate_condition_def Let_def split: option.split sum.split)

lemma replace_refs_missing:
  "m \<in> set refs \<Longrightarrow>
   monitors db m = None \<or> latest_values db m = None
     \<or> (\<exists>lv. latest_values db m = Some lv \<and> mv_value lv = None) \<Longrightarrow>
   replace_refs env db refs ec = None"
proof (induction refs arbitrary: ec)
  case Nil
  then show ?case by simp
next
  case (Cons r refs)
  show ?case
  proof (cases "r = m")
    case True
    with Cons.prems(2) show ?thesis by (auto split: option.split)
  next
    case False
    with Cons.prems have "m \<in> set refs" by simp
    then have "replace_refs env db refs ec' = None" for ec'
      using Cons.IH Cons.prems(2) by blast
    then show ?thesis by (simp split: option.split)
  qed
qed

text \<open>
  C1. When the expression left by the substitution of the metric values has a character
  outside \<^verbatim>\<open>safe_chars\<close>, \<^verbatim>\<open>_evaluate_condition\<close> returns \<^verbatim>\<open>False\<close> and the checker is
  as it was: in particular nothing was passed to \<^verbatim>\<open>eval\<close>. (\<^verbatim>\<open>safe_chars\<close> is a subset
  of the characters the specification lists, so a character outside the specification's
  list is outside \<^verbatim>\<open>safe_chars\<close> too.)
\<close>

theorem unsafe_expression_never_evaluated:
  assumes "replace_refs env db (findall (condition rule)) (condition rule) = Some candidate"
    and "c \<in> set candidate"
    and "c \<notin> set safe_chars"
  shows "evaluate_condition env db rule s = (Inr False, s)"
proof -
  from assms(2,3) have "\<not> list_all (\<lambda>c. c \<in> set safe_chars) candidate"
    by (auto simp: list_all_iff)
  with assms(1) show ?thesis
    by (simp add: evaluate_condition_def Let_def)
qed

lemma ex_unsafe_candidate:
  "replace_refs (ex_env\<lparr>py_eval := \<lambda>e. Inr True\<rparr>) (ex_db 62 1)
     (findall ''${monitor:m1} > 50; import os'') ''${monitor:m1} > 50; import os''
   = Some ''62.0 > 50; import os''"
  by code_simp

theorem unsafe_expression_never_evaluated_witness:
  "replace_refs (ex_env\<lparr>py_eval := \<lambda>e. Inr True\<rparr>) (ex_db 62 1)
     (findall ''${monitor:m1} > 50; import os'') ''${monitor:m1} > 50; import os''
   = Some ''62.0 > 50; import os''
   \<and> CHR '';'' \<in> set ''62.0 > 50; import os''
   \<and> CHR '';'' \<notin> set safe_chars
   \<and> evaluate_condition (ex_env\<lparr>py_eval := \<lambda>e. Inr True\<rparr>) (ex_db 62 1)
       (ex_rule\<lparr>condition := ''${monitor:m1} > 50; import os''\<rparr>) init
     = (Inr False, init)"
proof -
  have a: "CHR '';'' \<in> set ''62.0 > 50; import os''" by simp
  have b: "CHR '';'' \<notin> set safe_chars" by (simp add: safe_chars_def)
  have c: "replace_refs (ex_env\<lparr>py_eval := \<lambda>e. Inr True\<rparr>) (ex_db 62 1)
     (findall (condition (ex_rule\<lparr>condition := ''${monitor:m1} > 50; import os''\<rparr>)))
     (condition (ex_rule\<lparr>condition := ''${monitor:m1} > 50; import os''\<rparr>))
   = Some ''62.0 > 50; import os''"
    using ex_unsafe_candidate by simp
  from unsafe_expression_never_evaluated [OF c a b, of init] ex_unsafe_candidate a b
  show ?thesis by simp
qed

text \<open>
  C2. The expression \<^verbatim>\<open>62.0 != 50\<close>, made of a number, the operator \<^verbatim>\<open>!=\<close>, spaces and
  a number, is rejected as unsafe: \<^verbatim>\<open>!\<close> is not in \<^verbatim>\<open>safe_chars\<close>, and the test runs
  over the expression itself, not over \<^verbatim>\<open>check_str\<close>, from which the operators were
  removed and which would have passed. The same happens with the textual \<^verbatim>\<open>and\<close>.
  \<^verbatim>\<open>eval\<close>, which would have returned \<^verbatim>\<open>True\<close> here, is not called.
\<close>

theorem not_equal_and_textual_and_rejected:
  "replace_refs (ex_env\<lparr>py_eval := \<lambda>e. Inr True\<rparr>) (ex_db 62 1)
     (findall ''${monitor:m1} != 50'') ''${monitor:m1} != 50'' = Some ''62.0 != 50''
   \<and> list_all (\<lambda>c. c \<in> set safe_chars) (check_str ''62.0 != 50'')
   \<and> fst (evaluate_condition (ex_env\<lparr>py_eval := \<lambda>e. Inr True\<rparr>) (ex_db 62 1)
            (ex_rule\<lparr>condition := ''${monitor:m1} != 50''\<rparr>) init) = Inr False
   \<and> eval_calls (snd (evaluate_condition (ex_env\<lparr>py_eval := \<lambda>e. Inr True\<rparr>) (ex_db 62 1)
            (ex_rule\<lparr>condition := ''${monitor:m1} != 50''\<rparr>) init)) = []
   \<and> replace_refs (ex_env\<lparr>py_eval := \<lambda>e. Inr True\<rparr>) (ex_db 62 1)
       (findall ''${monitor:m1} > 50 and ${monitor:m1} < 70'')
       ''${monitor:m1} > 50 and ${monitor:m1} < 70'' = Some ''62.0 > 50 and 62.0 < 70''
   \<and> list_all (\<lambda>c. c \<in> set safe_chars) (check_str ''62.0 > 50 and 62.0 < 70'')
   \<and> fst (evaluate_condition (ex_env\<lparr>py_eval := \<lambda>e. Inr True\<rparr>) (ex_db 62 1)
            (ex_rule\<lparr>condition := ''${monitor:m1} > 50 and ${monitor:m1} < 70''\<rparr>) init)
       = Inr False
   \<and> eval_calls (snd (evaluate_condition (ex_env\<lparr>py_eval := \<lambda>e. Inr True\<rparr>) (ex_db 62 1)
            (ex_rule\<lparr>condition := ''${monitor:m1} > 50 and ${monitor:m1} < 70''\<rparr>) init))
       = []"
  by code_simp

text \<open>
  C3. When the condition refers to a metric that has no \<^verbatim>\<open>Monitor\<close> row, or no
  \<^verbatim>\<open>MonitorValue\<close> row, or whose latest value is null, \<^verbatim>\<open>_evaluate_condition\<close> returns
  \<^verbatim>\<open>False\<close> (a value, not an exception) and the checker is as it was.
\<close>

theorem missing_data_never_triggers:
  assumes "m \<in> set (findall (condition rule))"
    and "monitors db m = None \<or> latest_values db m = None
           \<or> (\<exists>lv. latest_values db m = Some lv \<and> mv_value lv = None)"
  shows "evaluate_condition env db rule s = (Inr False, s)"
proof -
  from assms have "replace_refs env db (findall (condition rule)) (condition rule) = None"
    by (rule replace_refs_missing)
  then show ?thesis
    by (simp add: evaluate_condition_def Let_def)
qed

lemma ex_condition_refs: "findall (condition ex_rule) = [''m1'', ''m1'']"
  by code_simp

theorem missing_data_never_triggers_witness:
  "''m1'' \<in> set (findall (condition ex_rule))
   \<and> latest_values ((ex_db 62 1)\<lparr>latest_values := [''m1'' \<mapsto> \<lparr>mv_value = None\<rparr>]\<rparr>) ''m1''
       = Some \<lparr>mv_value = None\<rparr>
   \<and> mv_value \<lparr>mv_value = (None :: nat option)\<rparr> = None
   \<and> evaluate_condition ex_env
       ((ex_db 62 1)\<lparr>latest_values := [''m1'' \<mapsto> \<lparr>mv_value = None\<rparr>]\<rparr>) ex_rule init
     = (Inr False, init)
   \<and> latest_values ((ex_db 62 1)\<lparr>latest_values := Map.empty\<rparr>) ''m1'' = None
   \<and> evaluate_condition ex_env ((ex_db 62 1)\<lparr>latest_values := Map.empty\<rparr>) ex_rule init
     = (Inr False, init)
   \<and> monitors ((ex_db 62 1)\<lparr>monitors := Map.empty\<rparr>) ''m1'' = None
   \<and> evaluate_condition ex_env ((ex_db 62 1)\<lparr>monitors := Map.empty\<rparr>) ex_rule init
     = (Inr False, init)"
proof -
  have m: "''m1'' \<in> set (findall (condition ex_rule))"
    by (simp add: ex_condition_refs)
  have a: "latest_values ((ex_db 62 1)\<lparr>latest_values := [''m1'' \<mapsto> \<lparr>mv_value = None\<rparr>]\<rparr>) ''m1''
       = Some \<lparr>mv_value = None\<rparr>" by simp
  have b: "latest_values ((ex_db 62 1)\<lparr>latest_values := Map.empty\<rparr>) ''m1'' = None" by simp
  have c: "monitors ((ex_db 62 1)\<lparr>monitors := Map.empty\<rparr>) ''m1'' = None" by simp
  from a have a': "monitors ((ex_db 62 1)\<lparr>latest_values := [''m1'' \<mapsto> \<lparr>mv_value = None\<rparr>]\<rparr>) ''m1'' = None
      \<or> latest_values ((ex_db 62 1)\<lparr>latest_values := [''m1'' \<mapsto> \<lparr>mv_value = None\<rparr>]\<rparr>) ''m1'' = None
      \<or> (\<exists>lv. latest_values ((ex_db 62 1)\<lparr>latest_values := [''m1'' \<mapsto> \<lparr>mv_value = None\<rparr>]\<rparr>) ''m1''
               = Some lv \<and> mv_value lv = None)"
    by simp
  show ?thesis
    using missing_data_never_triggers [OF m a', of ex_env init]
      missing_data_never_triggers [OF m disjI2 [OF disjI1 [OF b]], of ex_env init]
      missing_data_never_triggers [OF m disjI1 [OF c], of ex_env init]
      m a b c
    by simp
qed

section \<open>Properties of the alert state machine\<close>

text \<open>The cooldown test of \<^verbatim>\<open>_handle_triggered_alert\<close> succeeds: the function returns at
  once, and only the clock has been read.\<close>

lemma handle_in_cooldown:
  assumes "alert_states s (rule_id rule) = Some e"
    and "last_notified e = Some t"
    and "total_seconds (utcnow env (clock_reads s) - t) < real_of_int (cooldown_seconds rule)"
  shows "handle_triggered_alert env db rule s = (Inr (), s\<lparr>clock_reads := Suc (clock_reads s)\<rparr>)"
  using assms by (simp add: handle_triggered_alert_def Let_def)

text \<open>The cooldown test fails and the message is built: \<^verbatim>\<open>send_alert\<close> is called, and
  the entry is written exactly when it returns \<^verbatim>\<open>True\<close>.\<close>

lemma handle_eligible:
  assumes "alert_states s (rule_id rule) = None
           \<or> (\<exists>e. alert_states s (rule_id rule) = Some e \<and>
                 (last_notified e = None
                  \<or> (\<exists>t. last_notified e = Some t \<and>
                        real_of_int (cooldown_seconds rule)
                          \<le> total_seconds (utcnow env (clock_reads s) - t))))"
    and "format_alert_message env db rule = Inr (title, message)"
  shows "handle_triggered_alert env db rule s =
           (Inr (),
            if send_alert env message title (level rule) url = Inr True
            then s\<lparr>clock_reads := Suc (clock_reads s),
                   send_calls := send_calls s @ [(message, title, level rule, url)],
                   alert_states := (alert_states s)(rule_id rule \<mapsto>
                     \<lparr>last_notified = Some (utcnow env (clock_reads s)), is_active = True\<rparr>)\<rparr>
            else s\<lparr>clock_reads := Suc (clock_reads s),
                   send_calls := send_calls s @ [(message, title, level rule, url)]\<rparr>)"
proof -
  let ?last = "case alert_states s (rule_id rule) of
                 None \<Rightarrow> None | Some rule_state \<Rightarrow> last_notified rule_state"
  from assms(1) have "\<not> (case ?last of None \<Rightarrow> False
      | Some t \<Rightarrow> total_seconds (utcnow env (clock_reads s) - t)
                   < real_of_int (cooldown_seconds rule))"
    by (auto split: option.split)
  with assms(2) show ?thesis
    by (simp add: handle_triggered_alert_def Let_def split: sum.split)
qed

text \<open>The message cannot be built: the exception leaves \<^verbatim>\<open>_handle_triggered_alert\<close>
  before anything is sent or written.\<close>

lemma handle_format_raises:
  assumes "format_alert_message env db rule = Inl x"
  shows "send_calls (snd (handle_triggered_alert env db rule s)) = send_calls s"
    and "alert_states (snd (handle_triggered_alert env db rule s)) = alert_states s"
  using assms by (simp_all add: handle_triggered_alert_def Let_def)

lemma check_rule_triggered:
  assumes "fst (evaluate_condition env db rule s) = Inr True"
  shows "check_rule env db rule s =
           handle_triggered_alert env db rule (snd (evaluate_condition env db rule s))"
  using assms by (cases "evaluate_condition env db rule s") (simp add: check_rule_def)

lemma check_rule_not_triggered:
  assumes "fst (evaluate_condition env db rule s) = Inr False"
  shows "check_rule env db rule s =
           (let s1 = snd (evaluate_condition env db rule s) in
            case alert_states s (rule_id rule) of
              None \<Rightarrow> (Inr (), s1)
            | Some rule_state \<Rightarrow>
                if is_active rule_state
                then (Inr (), s1\<lparr>alert_states := (alert_states s)(rule_id rule \<mapsto>
                                   rule_state\<lparr>is_active := False\<rparr>)\<rparr>)
                else (Inr (), s1))"
proof (cases "evaluate_condition env db rule s")
  case (Pair r s1)
  with assms have r: "r = Inr False" by simp
  from Pair have "alert_states s1 = alert_states s"
    using evaluate_condition_frame(1) [of env db rule s] by simp
  with Pair r show ?thesis
    by (simp add: check_rule_def Let_def split: option.split)
qed

text \<open>
  C4, as it holds. The condition of the rule evaluates true. If the entry of the rule
  has a timestamp and the seconds since then are strictly fewer than the cooldown,
  \<^verbatim>\<open>send_alert\<close> is not called. If the rule has no entry, or its entry has no timestamp,
  or the seconds since the timestamp are the cooldown or more, and the message of the
  notification can be built (\<^verbatim>\<open>_format_alert_message\<close> returns), \<^verbatim>\<open>send_alert\<close> is
  called once, with this message.
\<close>

theorem cooldown_law:
  assumes "fst (evaluate_condition env db rule s) = Inr True"
  shows "(alert_states s (rule_id rule) = Some e \<and> last_notified e = Some t
            \<and> total_seconds (utcnow env (clock_reads s) - t)
                < real_of_int (cooldown_seconds rule)
          \<longrightarrow> send_calls (snd (check_rule env db rule s)) = send_calls s)
       \<and> (format_alert_message env db rule = Inr (title, message)
            \<and> (alert_states s (rule_id rule) = None
                \<or> alert_states s (rule_id rule) = Some e \<and> last_notified e = None
                \<or> alert_states s (rule_id rule) = Some e \<and> last_notified e = Some t
                    \<and> real_of_int (cooldown_seconds rule)
                         \<le> total_seconds (utcnow env (clock_reads s) - t))
          \<longrightarrow> send_calls (snd (check_rule env db rule s))
                = send_calls s @ [(message, title, level rule, url)])"
proof -
  let ?s1 = "snd (evaluate_condition env db rule s)"
  note frame = evaluate_condition_frame [of env db rule s]
  have step: "check_rule env db rule s = handle_triggered_alert env db rule ?s1"
    using assms by (rule check_rule_triggered)
  have cooling: "send_calls (snd (check_rule env db rule s)) = send_calls s"
    if "alert_states s (rule_id rule) = Some e" "last_notified e = Some t"
       "total_seconds (utcnow env (clock_reads s) - t) < real_of_int (cooldown_seconds rule)"
  proof -
    have "handle_triggered_alert env db rule ?s1
            = (Inr (), ?s1\<lparr>clock_reads := Suc (clock_reads ?s1)\<rparr>)"
      using that by (intro handle_in_cooldown [where e = e and t = t]) (simp_all add: frame)
    then show ?thesis by (simp add: step frame)
  qed
  have firing: "send_calls (snd (check_rule env db rule s))
                  = send_calls s @ [(message, title, level rule, url)]"
    if f: "format_alert_message env db rule = Inr (title, message)"
    and el: "alert_states s (rule_id rule) = None
             \<or> alert_states s (rule_id rule) = Some e \<and> last_notified e = None
             \<or> alert_states s (rule_id rule) = Some e \<and> last_notified e = Some t
                 \<and> real_of_int (cooldown_seconds rule)
                      \<le> total_seconds (utcnow env (clock_reads s) - t)"
  proof -
    from el have "alert_states ?s1 (rule_id rule) = None
           \<or> (\<exists>e. alert_states ?s1 (rule_id rule) = Some e \<and>
                 (last_notified e = None
                  \<or> (\<exists>t. last_notified e = Some t \<and>
                        real_of_int (cooldown_seconds rule)
                          \<le> total_seconds (utcnow env (clock_reads ?s1) - t))))"
      by (auto simp: frame)
    from handle_eligible [OF this f] show ?thesis
      by (simp add: step frame)
  qed
  from cooling firing show ?thesis by blast
qed

text \<open>
  C4, as the claim states it, fails: the condition of the example rule is true, the rule
  was never notified, and no notification is dispatched, since the monitor's
  \<^verbatim>\<open>decimal_places\<close> is \<open>-1\<close> and the formatter raises \<^verbatim>\<open>ValueError\<close>.
\<close>

theorem cooldown_law_counterexample:
  "fst (evaluate_condition ex_env (ex_db 62 (- 1)) ex_rule init) = Inr True
   \<and> alert_states (init :: (nat, string) checker) (rule_id ex_rule) = None
   \<and> fst (check_rule ex_env (ex_db 62 (- 1)) ex_rule init)
       = Inl (ValueError ''Format specifier missing precision'')
   \<and> send_calls (snd (check_rule ex_env (ex_db 62 (- 1)) ex_rule init)) = []"
  by code_simp

lemma ex_triggered:
  "fst (evaluate_condition (ex_env\<lparr>utcnow := clock\<rparr>) (ex_db 62 1) ex_rule s) = Inr True"
proof -
  have "replace_refs (ex_env\<lparr>utcnow := clock\<rparr>) (ex_db 62 1) [''m1'', ''m1''] ex_condition
          = Some ''62.0 > 50 or 62.0 < 30''"
    by code_simp
  moreover have "list_all (\<lambda>c. c \<in> set safe_chars) ''62.0 > 50 or 62.0 < 30''"
    by code_simp
  moreover have "str_replace '' && '' '' and '' (str_replace '' and '' '' and ''
      (str_replace '' || '' '' or '' (str_replace '' or '' '' or ''
         ''62.0 > 50 or 62.0 < 30''))) = ''62.0 > 50 or 62.0 < 30''"
    by code_simp
  moreover have "findall (condition ex_rule) = [''m1'', ''m1'']"
    by code_simp
  moreover have "condition ex_rule = ex_condition"
    by (simp add: ex_rule_def)
  ultimately show ?thesis
    by (simp add: evaluate_condition_def Let_def ex_env_def)
qed

lemma ex_message:
  "format_alert_message (ex_env\<lparr>utcnow := clock\<rparr>) (ex_db 62 1) ex_rule
     = Inr (''DRIFT'', label_current @ ''62.0%'' @ [CHR 0x0A] @ label_boundary @ ''> 50 OR < 30'')"
  by code_simp

theorem cooldown_law_witness:
  "fst (evaluate_condition (ex_env\<lparr>utcnow := \<lambda>k. 30000000\<rparr>) (ex_db 62 1) ex_rule
          (ex_notified True)) = Inr True
   \<and> alert_states (ex_notified True) (rule_id ex_rule)
       = Some \<lparr>last_notified = Some 0, is_active = True\<rparr>
   \<and> total_seconds (30000000 - 0) < real_of_int (cooldown_seconds ex_rule)
   \<and> send_calls (snd (check_rule (ex_env\<lparr>utcnow := \<lambda>k. 30000000\<rparr>) (ex_db 62 1) ex_rule
                        (ex_notified True))) = []
   \<and> real_of_int (cooldown_seconds ex_rule) \<le> total_seconds (60000000 - 0)
   \<and> send_calls (snd (check_rule (ex_env\<lparr>utcnow := \<lambda>k. 60000000\<rparr>) (ex_db 62 1) ex_rule
                        (ex_notified True)))
       = [(label_current @ ''62.0%'' @ [CHR 0x0A] @ label_boundary @ ''> 50 OR < 30'',
           ''DRIFT'', ''high'', url)]
   \<and> alert_states (init :: (nat, string) checker) (rule_id ex_rule) = None
   \<and> send_calls (snd (check_rule (ex_env\<lparr>utcnow := \<lambda>k. 0\<rparr>) (ex_db 62 1) ex_rule init))
       = [(label_current @ ''62.0%'' @ [CHR 0x0A] @ label_boundary @ ''> 50 OR < 30'',
           ''DRIFT'', ''high'', url)]"
proof -
  let ?e = "\<lparr>last_notified = Some (0::int), is_active = True\<rparr>"
  let ?m = "label_current @ ''62.0%'' @ [CHR 0x0A] @ label_boundary @ ''> 50 OR < 30''"
  have entry: "alert_states (ex_notified True) (rule_id ex_rule) = Some ?e"
    by (simp add: ex_notified_def ex_rule_def)
  have none: "alert_states (init :: (nat, string) checker) (rule_id ex_rule) = None"
    by (simp add: init_def)
  have short: "total_seconds (30000000 - 0) < real_of_int (cooldown_seconds ex_rule)"
    by (simp add: total_seconds_def ex_rule_def)
  have long: "real_of_int (cooldown_seconds ex_rule) \<le> total_seconds (60000000 - 0)"
    by (simp add: total_seconds_def ex_rule_def)
  have lvl: "level ex_rule = ''high''"
    by (simp add: ex_rule_def)
  have calls: "send_calls (ex_notified True) = []" "send_calls (init :: (nat, string) checker) = []"
    by (simp_all add: ex_notified_def init_def)
  have a: "send_calls (snd (check_rule (ex_env\<lparr>utcnow := \<lambda>k. 30000000\<rparr>) (ex_db 62 1) ex_rule
                        (ex_notified True))) = []"
    using cooldown_law [where env = "ex_env\<lparr>utcnow := \<lambda>k. 30000000\<rparr>" and s = "ex_notified True"
          and e = ?e and t = 0 and title = "''DRIFT''" and message = ?m, OF ex_triggered]
      entry short calls
    by simp
  have b: "send_calls (snd (check_rule (ex_env\<lparr>utcnow := \<lambda>k. 60000000\<rparr>) (ex_db 62 1) ex_rule
                        (ex_notified True))) = [(?m, ''DRIFT'', ''high'', url)]"
    using cooldown_law [where env = "ex_env\<lparr>utcnow := \<lambda>k. 60000000\<rparr>" and s = "ex_notified True"
          and e = ?e and t = 0 and title = "''DRIFT''" and message = ?m, OF ex_triggered]
      entry long calls lvl ex_message [of "\<lambda>k. 60000000"]
    by simp
  have c: "send_calls (snd (check_rule (ex_env\<lparr>utcnow := \<lambda>k. 0\<rparr>) (ex_db 62 1) ex_rule init))
             = [(?m, ''DRIFT'', ''high'', url)]"
    using cooldown_law [where env = "ex_env\<lparr>utcnow := \<lambda>k. 0\<rparr>" and s = init
          and e = ?e and t = 0 and title = "''DRIFT''" and message = ?m, OF ex_triggered]
      none calls lvl ex_message [of "\<lambda>k. 0"]
    by simp
  from a b c entry none short long ex_triggered [of "\<lambda>k. 30000000" "ex_notified True"]
  show ?thesis by simp
qed

text \<open>
  C5. The condition of the rule evaluates true, the rule is not in its cooldown and the
  message is built; \<^verbatim>\<open>send_alert\<close> returns \<^verbatim>\<open>False\<close> or raises. Then
  \<^verbatim>\<open>self.alert_states\<close> is what it was (no timestamp is set, no flag is changed), the
  call was made, and the exception, if any, was caught.
\<close>

theorem failed_dispatch_leaves_state:
  assumes "fst (evaluate_condition env db rule s) = Inr True"
    and "alert_states s (rule_id rule) = None
           \<or> (\<exists>e. alert_states s (rule_id rule) = Some e \<and>
                 (last_notified e = None
                  \<or> (\<exists>t. last_notified e = Some t \<and>
                        real_of_int (cooldown_seconds rule)
                          \<le> total_seconds (utcnow env (clock_reads s) - t))))"
    and "format_alert_message env db rule = Inr (title, message)"
    and "send_alert env message title (level rule) url = Inr False
           \<or> (\<exists>x. send_alert env message title (level rule) url = Inl x)"
  shows "alert_states (snd (check_rule env db rule s)) = alert_states s
       \<and> send_calls (snd (check_rule env db rule s))
           = send_calls s @ [(message, title, level rule, url)]
       \<and> fst (check_rule env db rule s) = Inr ()"
proof -
  let ?s1 = "snd (evaluate_condition env db rule s)"
  note frame = evaluate_condition_frame [of env db rule s]
  have step: "check_rule env db rule s = handle_triggered_alert env db rule ?s1"
    using assms(1) by (rule check_rule_triggered)
  from assms(4) have not_sent: "send_alert env message title (level rule) url \<noteq> Inr True"
    by auto
  from assms(2) have "alert_states ?s1 (rule_id rule) = None
           \<or> (\<exists>e. alert_states ?s1 (rule_id rule) = Some e \<and>
                 (last_notified e = None
                  \<or> (\<exists>t. last_notified e = Some t \<and>
                        real_of_int (cooldown_seconds rule)
                          \<le> total_seconds (utcnow env (clock_reads ?s1) - t))))"
    by (simp add: frame)
  from handle_eligible [OF this assms(3)] not_sent show ?thesis
    by (simp add: step frame)
qed

theorem failed_dispatch_leaves_state_witness:
  "fst (evaluate_condition (ex_env\<lparr>utcnow := \<lambda>k. 60000000\<rparr>) (ex_db 62 1) ex_rule
          (ex_notified True)) = Inr True
   \<and> alert_states (ex_notified True) (rule_id ex_rule)
       = Some \<lparr>last_notified = Some 0, is_active = True\<rparr>
   \<and> real_of_int (cooldown_seconds ex_rule) \<le> total_seconds (60000000 - 0)
   \<and> alert_states (snd (check_rule
         (ex_env\<lparr>utcnow := \<lambda>k. 60000000, send_alert := \<lambda>m t l u. Inr False\<rparr>)
         (ex_db 62 1) ex_rule (ex_notified True))) = alert_states (ex_notified True)
   \<and> alert_states (snd (check_rule
         (ex_env\<lparr>utcnow := \<lambda>k. 60000000,
                 send_alert := \<lambda>m t l u. Inl (Exception ''ConnectionError'')\<rparr>)
         (ex_db 62 1) ex_rule (ex_notified True))) = alert_states (ex_notified True)
   \<and> fst (check_rule
         (ex_env\<lparr>utcnow := \<lambda>k. 60000000,
                 send_alert := \<lambda>m t l u. Inl (Exception ''ConnectionError'')\<rparr>)
         (ex_db 62 1) ex_rule (ex_notified True)) = Inr ()"
proof -
  let ?no = "ex_env\<lparr>utcnow := \<lambda>k. 60000000, send_alert := \<lambda>m t l u. Inr False\<rparr>"
  let ?ex = "ex_env\<lparr>utcnow := \<lambda>k. 60000000,
                     send_alert := \<lambda>m t l u. Inl (Exception ''ConnectionError'')\<rparr>"
  let ?m = "label_current @ ''62.0%'' @ [CHR 0x0A] @ label_boundary @ ''> 50 OR < 30''"
  have entry: "alert_states (ex_notified True) (rule_id ex_rule)
                 = Some \<lparr>last_notified = Some 0, is_active = True\<rparr>"
    by (simp add: ex_notified_def ex_rule_def)
  have long: "real_of_int (cooldown_seconds ex_rule) \<le> total_seconds (60000000 - 0)"
    by (simp add: total_seconds_def ex_rule_def)
  have trig_no: "fst (evaluate_condition ?no (ex_db 62 1) ex_rule (ex_notified True)) = Inr True"
    by code_simp
  have trig_ex: "fst (evaluate_condition ?ex (ex_db 62 1) ex_rule (ex_notified True)) = Inr True"
    by code_simp
  have msg_no: "format_alert_message ?no (ex_db 62 1) ex_rule = Inr (''DRIFT'', ?m)"
    by code_simp
  have msg_ex: "format_alert_message ?ex (ex_db 62 1) ex_rule = Inr (''DRIFT'', ?m)"
    by code_simp
  have elig: "alert_states (ex_notified True) (rule_id ex_rule) = None
           \<or> (\<exists>e. alert_states (ex_notified True) (rule_id ex_rule) = Some e \<and>
                 (last_notified e = None
                  \<or> (\<exists>t. last_notified e = Some t \<and>
                        real_of_int (cooldown_seconds ex_rule)
                          \<le> total_seconds (utcnow env (clock_reads (ex_notified True)) - t))))"
    if "utcnow env = (\<lambda>k. 60000000)" for env :: "(nat, string) environment"
    using that entry long by simp
  have elig_no: "utcnow ?no = (\<lambda>k. 60000000)" and elig_ex: "utcnow ?ex = (\<lambda>k. 60000000)"
    by simp_all
  have a: "send_alert ?no ?m ''DRIFT'' (level ex_rule) url = Inr False
             \<or> (\<exists>x. send_alert ?no ?m ''DRIFT'' (level ex_rule) url = Inl x)"
    by simp
  have b: "send_alert ?ex ?m ''DRIFT'' (level ex_rule) url = Inr False
             \<or> (\<exists>x. send_alert ?ex ?m ''DRIFT'' (level ex_rule) url = Inl x)"
    by simp
  from failed_dispatch_leaves_state [OF trig_no elig [OF elig_no] msg_no a]
    failed_dispatch_leaves_state [OF trig_ex elig [OF elig_ex] msg_ex b]
    entry long ex_triggered [of "\<lambda>k. 60000000" "ex_notified True"]
  show ?thesis by simp
qed

text \<open>
  C6. The condition of the rule evaluates false and the entry of the rule has
  \<^verbatim>\<open>is_active\<close> true. After the loop body the entry is the same entry with \<^verbatim>\<open>is_active\<close>
  false (its timestamp is the one it had), every other entry is untouched, and
  \<^verbatim>\<open>send_alert\<close> was not called.
\<close>

theorem clear_transition:
  assumes "fst (evaluate_condition env db rule s) = Inr False"
    and "alert_states s (rule_id rule) = Some e"
    and "is_active e"
  shows "alert_states (snd (check_rule env db rule s))
           = (alert_states s)(rule_id rule \<mapsto> e\<lparr>is_active := False\<rparr>)
       \<and> last_notified (e\<lparr>is_active := False\<rparr>) = last_notified e
       \<and> is_active (e\<lparr>is_active := False\<rparr>) = False
       \<and> send_calls (snd (check_rule env db rule s)) = send_calls s"
  using check_rule_not_triggered [OF assms(1)] assms(2,3)
    evaluate_condition_frame [of env db rule s]
  by (simp add: Let_def)

lemma ex_not_triggered:
  "fst (evaluate_condition ex_env (ex_db 40 1) ex_rule (ex_notified True)) = Inr False"
  by code_simp

theorem clear_transition_witness:
  "fst (evaluate_condition ex_env (ex_db 40 1) ex_rule (ex_notified True)) = Inr False
   \<and> alert_states (ex_notified True) (rule_id ex_rule)
       = Some \<lparr>last_notified = Some 0, is_active = True\<rparr>
   \<and> is_active \<lparr>last_notified = Some (0::int), is_active = True\<rparr>
   \<and> alert_states (snd (check_rule ex_env (ex_db 40 1) ex_rule (ex_notified True))) 1
       = Some \<lparr>last_notified = Some 0, is_active = False\<rparr>
   \<and> send_calls (snd (check_rule ex_env (ex_db 40 1) ex_rule (ex_notified True))) = []"
proof -
  have entry: "alert_states (ex_notified True) (rule_id ex_rule)
                 = Some \<lparr>last_notified = Some 0, is_active = True\<rparr>"
    by (simp add: ex_notified_def ex_rule_def)
  have active: "is_active \<lparr>last_notified = Some (0::int), is_active = True\<rparr>"
    by simp
  have calls: "send_calls (ex_notified True) = []" "rule_id ex_rule = 1"
    by (simp_all add: ex_notified_def init_def ex_rule_def)
  from clear_transition [OF ex_not_triggered entry active] entry calls ex_not_triggered
  show ?thesis by simp
qed

text \<open>
  C7. \<^verbatim>\<open>_parse_condition_to_boundary\<close> deletes each placeholder with the whitespace after
  it and rewrites the logical operators, and nothing else: the space between a
  comparison operator and its number stays. The two conditions of the claim give
  \<^verbatim>\<open>> 50 OR < 30\<close>, not \<^verbatim>\<open>>50 OR <30\<close>, and the second example of the function's own
  docstring gives \<^verbatim>\<open>> 100\<close>, not \<^verbatim>\<open>>100\<close>.
\<close>

theorem boundary_keeps_space_after_operator:
  "parse_condition_to_boundary ''${monitor:x} > 50 or ${monitor:x} < 30'' = ''> 50 OR < 30''
   \<and> parse_condition_to_boundary ''${monitor:m1} > 50 or ${monitor:m1} < 30'' = ''> 50 OR < 30''
   \<and> parse_condition_to_boundary ''${monitor:xxx} > 100'' = ''> 100''
   \<and> parse_condition_to_boundary ''${monitor:x} > 50 or ${monitor:x} < 30'' \<noteq> ''>50 OR <30''"
  by code_simp

section \<open>Properties of the checker loop\<close>

lemma run_loop_append:
  "run_loop env db (before @ rules) s = run_loop env db rules (run_loop env db before s)"
  by (induction before arbitrary: s) (auto split: prod.split sum.split)

lemma run_loop_step:
  "run_loop env db (rule # rules) s = run_loop env db rules (snd (check_rule env db rule s))"
  by (cases "check_rule env db rule s") (auto split: sum.split)

text \<open>
  C8. A cycle of a configured checker returns normally, and whatever the loop body did
  for one of the enabled rules, an exception included, the rules after it are checked,
  from the state that rule left.
\<close>

theorem failing_rule_does_not_abort_cycle:
  assumes "is_configured env"
    and "filter enabled (alert_rules db) = before @ rule # after"
  shows "run env db s =
           (Inr (), run_loop env db after
                      (snd (check_rule env db rule (run_loop env db before s))))"
  using assms by (simp add: run_def run_loop_append run_loop_step del: run_loop.simps)

text \<open>A second rule, on a monitor whose \<^verbatim>\<open>decimal_places\<close> is \<open>-1\<close>: checking it raises.\<close>

definition ex_bad_rule :: "(nat, string) alert_rule" where
  "ex_bad_rule = ex_rule\<lparr>rule_id := 2, rule_name := ''bad'',
                         condition := ''${monitor:m2} > 50 or ${monitor:m2} < 30''\<rparr>"

definition ex_db2 :: "(nat, nat, string) database" where
  "ex_db2 =
     \<lparr>monitors = [''m1'' \<mapsto> \<lparr>monitor_name = ''DRIFT'', unit = Some ''%'', decimal_places = 1\<rparr>,
                  ''m2'' \<mapsto> \<lparr>monitor_name = ''BAD'', unit = None, decimal_places = - 1\<rparr>],
      latest_values = [''m1'' \<mapsto> \<lparr>mv_value = Some 62\<rparr>, ''m2'' \<mapsto> \<lparr>mv_value = Some 62\<rparr>],
      alert_rules = [ex_bad_rule, ex_rule\<lparr>enabled := False\<rparr>, ex_rule]\<rparr>"

lemma ex_db2_enabled: "filter enabled (alert_rules ex_db2) = [] @ ex_bad_rule # [ex_rule]"
  by (simp add: ex_db2_def ex_bad_rule_def ex_rule_def)

lemma ex_bad_rule_raises:
  "fst (check_rule ex_env ex_db2 ex_bad_rule init)
     = Inl (ValueError ''Format specifier missing precision'')"
  by code_simp

lemma ex_after_bad_rule:
  "send_calls (run_loop ex_env ex_db2 [ex_rule] (snd (check_rule ex_env ex_db2 ex_bad_rule init)))
     = [(label_current @ ''62.0%'' @ [CHR 0x0A] @ label_boundary @ ''> 50 OR < 30'',
         ''DRIFT'', ''high'', url)]"
  by code_simp

theorem failing_rule_does_not_abort_cycle_witness:
  "is_configured ex_env
   \<and> filter enabled (alert_rules ex_db2) = [] @ ex_bad_rule # [ex_rule]
   \<and> fst (check_rule ex_env ex_db2 ex_bad_rule init)
       = Inl (ValueError ''Format specifier missing precision'')
   \<and> fst (run ex_env ex_db2 init) = Inr ()
   \<and> send_calls (snd (run ex_env ex_db2 init))
       = [(label_current @ ''62.0%'' @ [CHR 0x0A] @ label_boundary @ ''> 50 OR < 30'',
           ''DRIFT'', ''high'', url)]"
proof -
  have conf: "is_configured ex_env" by (simp add: ex_env_def)
  from failing_rule_does_not_abort_cycle [OF conf ex_db2_enabled, of init]
    conf ex_db2_enabled ex_bad_rule_raises ex_after_bad_rule
  show ?thesis by simp
qed

text \<open>
  C9. One pass of the loop body for a rule either leaves the timestamp of every entry as
  it was, or it is the pass of a rule whose condition was true, for which \<^verbatim>\<open>send_alert\<close>
  was called and returned \<^verbatim>\<open>True\<close>, and the entry written is the entry of that rule,
  with the time read in that pass. So evaluation alone, a pass suppressed by the
  cooldown and the clearing of \<^verbatim>\<open>is_active\<close> do not write a timestamp.
\<close>

theorem last_notified_written_only_by_dispatch:
  "map_option last_notified (alert_states (snd (check_rule env db rule s)) k)
     = map_option last_notified (alert_states s k)
   \<or> (k = rule_id rule
       \<and> fst (evaluate_condition env db rule s) = Inr True
       \<and> (\<exists>title message.
             format_alert_message env db rule = Inr (title, message)
             \<and> send_alert env message title (level rule) url = Inr True
             \<and> send_calls (snd (check_rule env db rule s))
                 = send_calls s @ [(message, title, level rule, url)])
       \<and> alert_states (snd (check_rule env db rule s)) k
           = Some \<lparr>last_notified = Some (utcnow env (clock_reads s)), is_active = True\<rparr>)"
proof -
  let ?s1 = "snd (evaluate_condition env db rule s)"
  note frame = evaluate_condition_frame [of env db rule s]
  obtain b where b: "fst (evaluate_condition env db rule s) = Inr b"
    using evaluate_condition_returns by blast
  show ?thesis
  proof (cases b)
    case False
    with b have "fst (evaluate_condition env db rule s) = Inr False" by simp
    from check_rule_not_triggered [OF this]
    have "map_option last_notified (alert_states (snd (check_rule env db rule s)) k)
            = map_option last_notified (alert_states s k)"
      by (auto simp: Let_def frame split: option.split)
    then show ?thesis by simp
  next
    case True
    with b have trig: "fst (evaluate_condition env db rule s) = Inr True" by simp
    then have step: "check_rule env db rule s = handle_triggered_alert env db rule ?s1"
      by (rule check_rule_triggered)
    let ?last = "case alert_states ?s1 (rule_id rule) of
                   None \<Rightarrow> None | Some rule_state \<Rightarrow> last_notified rule_state"
    let ?cooling = "case ?last of None \<Rightarrow> False
        | Some t \<Rightarrow> total_seconds (utcnow env (clock_reads ?s1) - t)
                     < real_of_int (cooldown_seconds rule)"
    show ?thesis
    proof (cases ?cooling)
      case True
      then have "handle_triggered_alert env db rule ?s1
                   = (Inr (), ?s1\<lparr>clock_reads := Suc (clock_reads ?s1)\<rparr>)"
        by (simp add: handle_triggered_alert_def Let_def)
      then show ?thesis by (simp add: step frame)
    next
      case False
      then have elig: "alert_states ?s1 (rule_id rule) = None
           \<or> (\<exists>e. alert_states ?s1 (rule_id rule) = Some e \<and>
                 (last_notified e = None
                  \<or> (\<exists>t. last_notified e = Some t \<and>
                        real_of_int (cooldown_seconds rule)
                          \<le> total_seconds (utcnow env (clock_reads ?s1) - t))))"
        by (auto split: option.splits)
      show ?thesis
      proof (cases "format_alert_message env db rule")
        case (Inl x)
        from handle_format_raises(2) [OF this, of ?s1] show ?thesis
          by (simp add: step frame)
      next
        case (Inr tm)
        then obtain title message where
          f: "format_alert_message env db rule = Inr (title, message)"
          by (cases tm) simp
        note h = handle_eligible [OF elig f]
        show ?thesis
        proof (cases "send_alert env message title (level rule) url = Inr True")
          case False
          with h show ?thesis by (simp add: step frame)
        next
          case True
          with h have
            "alert_states (snd (check_rule env db rule s))
               = (alert_states s)(rule_id rule \<mapsto>
                    \<lparr>last_notified = Some (utcnow env (clock_reads s)), is_active = True\<rparr>)"
            "send_calls (snd (check_rule env db rule s))
               = send_calls s @ [(message, title, level rule, url)]"
            by (simp_all add: step frame)
          with trig f True show ?thesis
            by (cases "k = rule_id rule") auto
        qed
      qed
    qed
  qed
qed

text \<open>
  C10. The cooldown test reads the timestamp of the entry and nothing else. The condition
  of the rule evaluates true and its entry, whatever its \<^verbatim>\<open>is_active\<close> flag (false for a
  cleared alert), has a timestamp fewer seconds ago than the cooldown: \<^verbatim>\<open>send_alert\<close> is
  not called and \<^verbatim>\<open>self.alert_states\<close> is what it was.
\<close>

theorem cooldown_ignores_is_active:
  assumes "fst (evaluate_condition env db rule s) = Inr True"
    and "alert_states s (rule_id rule) = Some \<lparr>last_notified = Some t, is_active = active\<rparr>"
    and "total_seconds (utcnow env (clock_reads s) - t) < real_of_int (cooldown_seconds rule)"
  shows "send_calls (snd (check_rule env db rule s)) = send_calls s
       \<and> alert_states (snd (check_rule env db rule s)) = alert_states s"
proof -
  let ?s1 = "snd (evaluate_condition env db rule s)"
  note frame = evaluate_condition_frame [of env db rule s]
  have "handle_triggered_alert env db rule ?s1
          = (Inr (), ?s1\<lparr>clock_reads := Suc (clock_reads ?s1)\<rparr>)"
    using assms(2,3)
    by (intro handle_in_cooldown
          [where e = "\<lparr>last_notified = Some t, is_active = active\<rparr>" and t = t])
       (simp_all add: frame)
  with check_rule_triggered [OF assms(1)] show ?thesis
    by (simp add: frame)
qed

theorem cooldown_ignores_is_active_witness:
  "fst (evaluate_condition (ex_env\<lparr>utcnow := \<lambda>k. 30000000\<rparr>) (ex_db 62 1) ex_rule
          (ex_notified False)) = Inr True
   \<and> alert_states (ex_notified False) (rule_id ex_rule)
       = Some \<lparr>last_notified = Some 0, is_active = False\<rparr>
   \<and> total_seconds (30000000 - 0) < real_of_int (cooldown_seconds ex_rule)
   \<and> send_calls (snd (check_rule (ex_env\<lparr>utcnow := \<lambda>k. 30000000\<rparr>) (ex_db 62 1) ex_rule
                        (ex_notified False))) = []
   \<and> alert_states (snd (check_rule (ex_env\<lparr>utcnow := \<lambda>k. 30000000\<rparr>) (ex_db 62 1) ex_rule
                          (ex_notified False))) 1
       = Some \<lparr>last_notified = Some 0, is_active = False\<rparr>"
proof -
  have entry: "alert_states (ex_notified False) (rule_id ex_rule)
                 = Some \<lparr>last_notified = Some 0, is_active = False\<rparr>"
    by (simp add: ex_notified_def ex_rule_def)
  have short: "total_seconds (utcnow (ex_env\<lparr>utcnow := \<lambda>k. 30000000\<rparr>)
                   (clock_reads (ex_notified False)) - 0)
                 < real_of_int (cooldown_seconds ex_rule)"
    by (simp add: total_seconds_def ex_rule_def)
  have calls: "send_calls (ex_notified False) = []" "rule_id ex_rule = 1"
    by (simp_all add: ex_notified_def init_def ex_rule_def)
  from cooldown_ignores_is_active [OF ex_triggered entry short] entry short calls
    ex_triggered [of "\<lambda>k. 30000000" "ex_notified False"]
  show ?thesis by simp
qed

end
